theory Spec2Isabelle
  imports Complex_Main "HOL-Library.AList"
begin

unbundle bit_operations_syntax

section \<open>Strings\<close>

text \<open>
  A Python \<open>str\<close> is a sequence of Unicode code points. The catalog's flags, the
  log prefixes and any translated text lie outside ASCII, so a string is a list of code
  points; \<open>str_of\<close> reads an ASCII literal.
\<close>

type_synonym pystr = "nat list"

definition str_of :: "string \<Rightarrow> pystr" where
  "str_of s = map of_char s"

text \<open>
  \<open>str.isspace\<close> of CPython for one code point, and \<open>str.strip()\<close> without
  argument, which removes the white space at both ends.
\<close>

definition isspace :: "nat \<Rightarrow> bool" where
  "isspace c \<longleftrightarrow>
     (9 \<le> c \<and> c \<le> 13) \<or> (28 \<le> c \<and> c \<le> 32) \<or> c = 133 \<or> c = 160 \<or> c = 5760 \<or>
     (8192 \<le> c \<and> c \<le> 8202) \<or> c = 8232 \<or> c = 8233 \<or> c = 8239 \<or> c = 8287 \<or> c = 12288"

definition strip :: "pystr \<Rightarrow> pystr" where
  "strip s = rev (dropWhile isspace (rev (dropWhile isspace s)))"

fun join :: "pystr \<Rightarrow> pystr list \<Rightarrow> pystr" where
  "join sep [] = []"
| "join sep [x] = x"
| "join sep (x # y # ys) = x @ sep @ join sep (y # ys)"

section \<open>Language catalog\<close>

record Language =
  code :: pystr
  name :: pystr
  flag :: pystr

text \<open>
  The dictionary \<open>languages\<close>, in insertion order (a Python dict iterates in that
  order). The flags are pairs of regional-indicator code points.
\<close>

definition languages :: "(pystr \<times> Language) list" where
  "languages =
    [(str_of ''en'', \<lparr>code = str_of ''en'', name = str_of ''English'', flag = [0x1F1FA, 0x1F1F8]\<rparr>),
     (str_of ''es'', \<lparr>code = str_of ''es'', name = str_of ''Spanish'', flag = [0x1F1EA, 0x1F1F8]\<rparr>),
     (str_of ''fr'', \<lparr>code = str_of ''fr'', name = str_of ''French'', flag = [0x1F1EB, 0x1F1F7]\<rparr>),
     (str_of ''de'', \<lparr>code = str_of ''de'', name = str_of ''German'', flag = [0x1F1E9, 0x1F1EA]\<rparr>),
     (str_of ''ja'', \<lparr>code = str_of ''ja'', name = str_of ''Japanese'', flag = [0x1F1EF, 0x1F1F5]\<rparr>)]"

text \<open>
  \<open>LanguageCode = Enum("LanguageCode", {code: lang.name for code, lang in languages.items()})\<close>:
  one member per catalog entry, whose \<open>name\<close> is the code and whose \<open>value\<close> is the
  display name. \<open>LanguageCode[key]\<close> looks a member up by name and raises
  \<open>KeyError\<close> for any other key.
\<close>

record EnumMember =
  enum_name :: pystr
  enum_value :: pystr

datatype error = KeyError pystr | IndexError | BackendError pystr | PublishError pystr

definition LanguageCode :: "(pystr \<times> pystr) list" where
  "LanguageCode = map (\<lambda>(code, lang). (code, name lang)) languages"

definition LanguageCode_getitem :: "pystr \<Rightarrow> error + EnumMember" where
  "LanguageCode_getitem key =
     (case map_of LanguageCode key of
        None \<Rightarrow> Inl (KeyError key)
      | Some v \<Rightarrow> Inr \<lparr>enum_name = key, enum_value = v\<rparr>)"

section \<open>Rooms, tracks and transcriptions\<close>

record Participant =
  identity :: pystr

datatype TrackKind = KIND_UNKNOWN | KIND_AUDIO | KIND_VIDEO

record Track =
  sid :: pystr
  kind :: TrackKind

record TranscriptionSegment =
  seg_id :: pystr
  seg_text :: pystr
  start_time :: int
  end_time :: int
  language :: pystr
  final :: bool

record Transcription =
  participant_identity :: pystr
  track_sid :: pystr
  segments :: "TranscriptionSegment list"

text \<open>What the recognizer delivers: the event type and its alternatives.\<close>

datatype SpeechEventType =
  START_OF_SPEECH | INTERIM_TRANSCRIPT | FINAL_TRANSCRIPT | END_OF_SPEECH | RECOGNITION_USAGE

record SpeechData =
  sd_language :: pystr
  sd_text :: pystr
  sd_start_time :: real
  sd_end_time :: real

record SpeechEvent =
  ev_type :: SpeechEventType
  alternatives :: "SpeechData list"

section \<open>Translators and the session state\<close>

record Translator =
  lang :: EnumMember
  prompt :: pystr
  model :: pystr

definition Translator_init :: "EnumMember \<Rightarrow> Translator" where
  "Translator_init l =
     \<lparr>lang = l,
      prompt = str_of ''You are a translator for language: '' @ enum_value l @ str_of ''. '' @
               str_of ''Your only response should be the exact translation of input text in the '' @
               enum_value l @ str_of '' language.'',
      model = str_of ''gemini-pro''\<rparr>"

text \<open>
  A task created by \<open>asyncio.create_task(translator.translate(message, track))\<close>
  and not yet finished.
\<close>

record TranslateTask =
  task_translator :: Translator
  task_message :: pystr
  task_track :: Track

text \<open>
  A coroutine that has called \<open>publish_transcription\<close> and waits for it to return:
  \<open>_forward_transcription\<close> at line 109, with the message and track it will dispatch,
  or \<open>translate\<close> at line 79, with what it will print.
\<close>

datatype suspended = Forwarding pystr Track | Translating Translator pystr pystr

text \<open>
  What the process logs. The program writes through \<open>logger\<close> and \<open>print\<close>.
  \<open>LogTaskException\<close> is the record of asyncio's default exception handler for a task
  that ended with an exception nobody retrieved (level ERROR on the logger \<open>asyncio\<close>,
  first line \<open>Task exception was never retrieved\<close>, then the task and the exception);
  \<open>logging.basicConfig(level=logging.INFO)\<close> at line 25 sends it to the same handler
  as the program's own records.
\<close>

datatype log_entry = LogInfo pystr | LogWarning pystr | LogTaskException error | Stdout pystr

text \<open>
  The state of one \<open>entrypoint\<close>: the dictionary \<open>translators\<close> in insertion
  order, the calls of \<open>publish_transcription\<close> in the order they were made, the
  translation tasks that wait for the backend in the order they were created, the coroutines
  that wait for \<open>publish_transcription\<close> to return, the log, and the identity of the
  room's local participant.
\<close>

record session =
  translators :: "(pystr \<times> Translator) list"
  published :: "Transcription list"
  tasks :: "TranslateTask list"
  awaiting :: "suspended list"
  logged :: "log_entry list"
  local_identity :: pystr

definition start :: "pystr \<Rightarrow> session" where
  "start ident =
     \<lparr>translators = [], published = [], tasks = [], awaiting = [], logged = [],
      local_identity = ident\<rparr>"

text \<open>
  The result of a call to a collaborator outside the program: it returns a value or
  raises.
\<close>

datatype 'a outcome = Returned 'a | Raised pystr

text \<open>
  \<open>utils.misc.shortuuid(prefix)\<close> is the prefix followed by a random tail; the tail
  drawn by a call is an input of the model.
\<close>

definition shortuuid :: "pystr \<Rightarrow> pystr \<Rightarrow> pystr" where
  "shortuuid prefix tail = prefix @ tail"

section \<open>Preference changes\<close>

text \<open>
  \<open>attrs\<close> is the dictionary of the changed attributes, given by its items;
  \<open>attrs.get(key)\<close> is \<open>map_of attrs key\<close>. A code is stored under a key that
  the guard has just found absent, so the assignment appends an entry.
\<close>

definition on_attributes_changed :: "(pystr \<times> pystr) list \<Rightarrow> Participant \<Rightarrow> session \<Rightarrow> session" where
  "on_attributes_changed attrs participant s =
     (case map_of attrs (str_of ''captions_language'') of
        None \<Rightarrow> s
      | Some l \<Rightarrow>
          if l \<noteq> [] \<and> l \<noteq> str_of ''en'' \<and> l \<notin> set (map fst (translators s)) then
            (case LanguageCode_getitem l of
               Inr m \<Rightarrow>
                 s\<lparr>translators := AList.update l (Translator_init m) (translators s),
                   logged := logged s @ [LogInfo (str_of ''[Language] Added translator for: '' @ l)]\<rparr>
             | Inl e \<Rightarrow>
                 s\<lparr>logged := logged s @ [LogWarning (str_of ''[Language] Unsupported code: '' @ l)]\<rparr>)
          else s)"

section \<open>Translation jobs\<close>

text \<open>
  The closure \<open>get_translation\<close>: the backend's \<open>response.text\<close>, stripped; an
  exception of the backend passes through.
\<close>

definition get_translation :: "pystr outcome \<Rightarrow> pystr outcome" where
  "get_translation response =
     (case response of Raised e \<Rightarrow> Raised e | Returned t \<Rightarrow> Returned (strip t))"

text \<open>
  \<open>Translator.translate\<close> from the moment the backend call returns (line 64), given
  what the backend answers and the tail drawn by \<open>shortuuid\<close>, up to the call of
  \<open>publish_transcription\<close> (line 79), where the coroutine waits. The result is the
  exception that ended the coroutine, if any, and the state it leaves.
\<close>

definition translate ::
  "Translator \<Rightarrow> pystr \<Rightarrow> Track \<Rightarrow> pystr outcome \<Rightarrow> pystr \<Rightarrow> session
     \<Rightarrow> error option \<times> session" where
  "translate self message track response uid s =
     (case get_translation response of
        Raised e \<Rightarrow> (Some (BackendError e), s)
      | Returned translated \<Rightarrow>
          let segment = \<lparr>seg_id = shortuuid (str_of ''SG_'') uid, seg_text = translated,
                          start_time = 0, end_time = 0,
                          language = enum_name (lang self), final = True\<rparr>;
              transcription = \<lparr>participant_identity = local_identity s, track_sid = sid track,
                                segments = [segment]\<rparr>
          in (None, s\<lparr>published := published s @ [transcription],
                        awaiting := awaiting s @ [Translating self message translated]\<rparr>))"

text \<open>
  The rest of \<open>translate\<close>, when \<open>publish_transcription\<close> has returned or
  raised: the \<open>print\<close> of line 80, or the exception.
\<close>

definition translate_resume ::
  "Translator \<Rightarrow> pystr \<Rightarrow> pystr \<Rightarrow> unit outcome \<Rightarrow> session \<Rightarrow> error option \<times> session" where
  "translate_resume self message translated pub s =
     (case pub of
        Raised e \<Rightarrow> (Some (PublishError e), s)
      | Returned u \<Rightarrow>
          (None, s\<lparr>logged := logged s @
             [Stdout ([91, 0x1F501] @ str_of '' Translation] '' @ message @ str_of '' -> ('' @
                      enum_name (lang self) @ str_of '') '' @ translated @ [10])]\<rparr>))"

section \<open>Fan-out\<close>

text \<open>The loop over \<open>translators.values()\<close>, which creates one task per translator.\<close>

definition dispatch :: "pystr \<Rightarrow> Track \<Rightarrow> session \<Rightarrow> session" where
  "dispatch message track s =
     s\<lparr>tasks := tasks s @
          map (\<lambda>t. \<lparr>task_translator = t, task_message = message, task_track = track\<rparr>)
              (map snd (translators s))\<rparr>"

text \<open>
  The body of the loop of \<open>_forward_transcription\<close> for one event of the recognizer,
  up to the call of \<open>publish_transcription\<close> (line 109), where the coroutine waits.
  \<open>ev.alternatives[0]\<close> raises \<open>IndexError\<close> on an empty list. Writing to the
  standard output is taken to succeed.
\<close>

definition forward_transcription ::
  "SpeechEvent \<Rightarrow> Participant \<Rightarrow> Track \<Rightarrow> pystr \<Rightarrow> session \<Rightarrow> error option \<times> session" where
  "forward_transcription ev participant track uid s =
     (if ev_type ev = INTERIM_TRANSCRIPT then
        (case alternatives ev of
           [] \<Rightarrow> (Some IndexError, s)
         | a # rest \<Rightarrow> (None, s\<lparr>logged := logged s @ [Stdout (sd_text a @ [13])]\<rparr>))
      else if ev_type ev = FINAL_TRANSCRIPT then
        (case alternatives ev of
           [] \<Rightarrow> (Some IndexError, s)
         | a # rest \<Rightarrow>
             let message = sd_text a;
                 s1 = s\<lparr>logged := logged s @
                        [Stdout ([91, 0x2714] @ str_of '' Final] '' @ identity participant @
                                 str_of '': '' @ message @ [10])]\<rparr>;
                 segment = \<lparr>seg_id = shortuuid (str_of ''SG_'') uid, seg_text = message,
                             start_time = 0, end_time = 0,
                             language = str_of ''en'', final = True\<rparr>;
                 transcription = \<lparr>participant_identity = identity participant,
                                   track_sid = sid track, segments = [segment]\<rparr>
             in (None, s1\<lparr>published := published s1 @ [transcription],
                            awaiting := awaiting s1 @ [Forwarding message track]\<rparr>))
      else (None, s))"

text \<open>
  The rest of the loop body, when \<open>publish_transcription\<close> has returned or raised:
  the loop over \<open>translators.values()\<close> of lines 112-113, which reads the dictionary
  as it is at that moment, or the exception, which leaves the loop before the dispatch.
\<close>

definition forward_transcription_resume ::
  "pystr \<Rightarrow> Track \<Rightarrow> unit outcome \<Rightarrow> session \<Rightarrow> error option \<times> session" where
  "forward_transcription_resume message track pub s =
     (case pub of
        Raised e \<Rightarrow> (Some (PublishError e), s)
      | Returned u \<Rightarrow> (None, dispatch message track s))"

section \<open>The language query\<close>

text \<open>
  \<open>json.dumps\<close> with its default settings on a list of dictionaries from strings to
  strings: non-ASCII code points are escaped, beyond the basic plane as a surrogate pair;
  items are separated by a comma and a space, keys from values by a colon and a space.
\<close>

definition hex_digit :: "nat \<Rightarrow> nat" where
  "hex_digit d = (if d < 10 then 48 + d else 87 + d)"

definition hex4 :: "nat \<Rightarrow> pystr" where
  "hex4 n = [hex_digit (n div 4096 mod 16), hex_digit (n div 256 mod 16),
             hex_digit (n div 16 mod 16), hex_digit (n mod 16)]"

definition escape_char :: "nat \<Rightarrow> pystr" where
  "escape_char c =
     (if c = 92 then [92, 92]
      else if c = 34 then [92, 34]
      else if c = 8 then [92, 98]
      else if c = 12 then [92, 102]
      else if c = 10 then [92, 110]
      else if c = 13 then [92, 114]
      else if c = 9 then [92, 116]
      else if 32 \<le> c \<and> c \<le> 126 then [c]
      else if c < 0x10000 then [92, 117] @ hex4 c
      else
        let n = c - 0x10000;
            s1 = 0xD800 OR (drop_bit 10 n AND 0x3FF);
            s2 = 0xDC00 OR (n AND 0x3FF)
        in [92, 117] @ hex4 s1 @ [92, 117] @ hex4 s2)"

definition encode_basestring_ascii :: "pystr \<Rightarrow> pystr" where
  "encode_basestring_ascii s = [34] @ concat (map escape_char s) @ [34]"

definition dumps_dict :: "(pystr \<times> pystr) list \<Rightarrow> pystr" where
  "dumps_dict d =
     [123] @ join (str_of '', '')
       (map (\<lambda>(k, v). encode_basestring_ascii k @ str_of '': '' @ encode_basestring_ascii v) d) @ [125]"

definition json_dumps :: "(pystr \<times> pystr) list list \<Rightarrow> pystr" where
  "json_dumps ds = [91] @ join (str_of '', '') (map dumps_dict ds) @ [93]"

definition asdict :: "Language \<Rightarrow> (pystr \<times> pystr) list" where
  "asdict l = [(str_of ''code'', code l), (str_of ''name'', name l), (str_of ''flag'', flag l)]"

definition get_languages :: "session \<Rightarrow> pystr \<times> session" where
  "get_languages s =
     (let langs = map asdict (map snd languages)
      in (json_dumps langs,
          s\<lparr>logged := logged s @ [LogInfo (str_of ''[RPC] get/languages called'')]\<rparr>))"

section \<open>The event loop\<close>

text \<open>
  Every coroutine of the program runs as a task whose handle is discarded
  (\<open>asyncio.create_task\<close> at lines 113, 119 and 128). When such a task ends with an
  exception, nothing in the program retrieves it, and asyncio's default exception handler
  logs it when the task is released.
\<close>

definition task_done :: "error option \<times> session \<Rightarrow> session" where
  "task_done r =
     (case fst r of
        None \<Rightarrow> snd r
      | Some e \<Rightarrow> (snd r)\<lparr>logged := logged (snd r) @ [LogTaskException e]\<rparr>)"

text \<open>
  What happens to a session, one event at a time: a participant's attributes change, the
  recognizer delivers an event to a forwarding task, the backend answers the task at a
  position of the tasks in flight, \<open>publish_transcription\<close> returns to the coroutine
  at a position of those that wait for it, or a client calls \<open>get/languages\<close>. Which
  call returns next is the environment's choice: the backend calls run in an executor, and
  the loop resumes a coroutine when its own call returns. An event that names no waiting
  task or coroutine does not occur and leaves the state as it is. A forwarding task
  handles the events of its stream one after the other; the events of different streams
  interleave freely.
\<close>

datatype event =
    AttributesChanged "(pystr \<times> pystr) list" Participant
  | Speech SpeechEvent Participant Track pystr
  | TranslationReturns nat "pystr outcome" pystr
  | PublishReturns nat "unit outcome"
  | GetLanguages

definition step :: "event \<Rightarrow> session \<Rightarrow> session" where
  "step e s =
     (case e of
        AttributesChanged attrs p \<Rightarrow> on_attributes_changed attrs p s
      | Speech ev p tr uid \<Rightarrow> task_done (forward_transcription ev p tr uid s)
      | TranslationReturns k response uid \<Rightarrow>
          if k < length (tasks s) then
            let t = tasks s ! k
            in task_done (translate (task_translator t) (task_message t) (task_track t) response uid
                            (s\<lparr>tasks := take k (tasks s) @ drop (Suc k) (tasks s)\<rparr>))
          else s
      | PublishReturns k pub \<Rightarrow>
          if k < length (awaiting s) then
            let s' = s\<lparr>awaiting := take k (awaiting s) @ drop (Suc k) (awaiting s)\<rparr>
            in (case awaiting s ! k of
                  Forwarding message track \<Rightarrow>
                    task_done (forward_transcription_resume message track pub s')
                | Translating self message translated \<Rightarrow>
                    task_done (translate_resume self message translated pub s'))
          else s
      | GetLanguages \<Rightarrow> snd (get_languages s))"

fun run :: "event list \<Rightarrow> session \<Rightarrow> session" where
  "run [] s = s"
| "run (e # es) s = run es (step e s)"

section \<open>Observations and example inputs\<close>

text \<open>
  The tails that \<open>shortuuid\<close> draws while an event is handled, the ids of all
  published segments, and the transcription that a translation task publishes when the
  backend answers it.
\<close>

fun draws :: "event \<Rightarrow> pystr list" where
  "draws (Speech ev p tr uid) = [uid]"
| "draws (TranslationReturns k r uid) = [uid]"
| "draws (PublishReturns k pub) = []"
| "draws (AttributesChanged attrs p) = []"
| "draws GetLanguages = []"

abbreviation published_ids :: "session \<Rightarrow> pystr list" where
  "published_ids s \<equiv> map seg_id (concat (map segments (published s)))"

abbreviation translated_caption :: "pystr \<Rightarrow> TranslateTask \<Rightarrow> pystr \<Rightarrow> pystr \<Rightarrow> Transcription" where
  "translated_caption ident t resp uid \<equiv>
     \<lparr>participant_identity = ident, track_sid = sid (task_track t),
      segments = [\<lparr>seg_id = shortuuid (str_of ''SG_'') uid, seg_text = strip resp,
                   start_time = 0, end_time = 0,
                   language = enum_name (lang (task_translator t)), final = True\<rparr>]\<rparr>"

text \<open>
  Observations of a run, for one language: the language of a task, the published
  transcriptions whose segment carries a language, the backend calls that return during a
  run (task, answer and drawn tail, in the order they return), the tasks that the
  dispatches of a run create (in the order they are created), whether every call of the
  language that returns is the oldest call of that language in flight, and the captions
  that returned calls publish.
\<close>

abbreviation task_lang :: "TranslateTask \<Rightarrow> pystr" where
  "task_lang t \<equiv> enum_name (lang (task_translator t))"

definition of_language :: "pystr \<Rightarrow> Transcription list \<Rightarrow> Transcription list" where
  "of_language l trs = filter (\<lambda>tr. map language (segments tr) = [l]) trs"

definition answer_of :: "event \<Rightarrow> session \<Rightarrow> (TranslateTask \<times> pystr outcome \<times> pystr) list" where
  "answer_of e s =
     (case e of
        TranslationReturns k r uid \<Rightarrow> if k < length (tasks s) then [(tasks s ! k, r, uid)] else []
      | _ \<Rightarrow> [])"

fun returned :: "event list \<Rightarrow> session \<Rightarrow> (TranslateTask \<times> pystr outcome \<times> pystr) list" where
  "returned [] s = []"
| "returned (e # es) s = answer_of e s @ returned es (step e s)"

definition spawn_of :: "event \<Rightarrow> session \<Rightarrow> TranslateTask list" where
  "spawn_of e s =
     (case e of
        PublishReturns k pub \<Rightarrow> drop (length (tasks s)) (tasks (step e s))
      | _ \<Rightarrow> [])"

fun spawned :: "event list \<Rightarrow> session \<Rightarrow> TranslateTask list" where
  "spawned [] s = []"
| "spawned (e # es) s = spawn_of e s @ spawned es (step e s)"

definition oldest_of :: "pystr \<Rightarrow> event \<Rightarrow> session \<Rightarrow> bool" where
  "oldest_of l e s =
     (case e of
        TranslationReturns k r uid \<Rightarrow>
          k < length (tasks s) \<and> task_lang (tasks s ! k) = l \<longrightarrow>
            l \<notin> task_lang ` set (take k (tasks s))
      | _ \<Rightarrow> True)"

fun oldest_first :: "pystr \<Rightarrow> event list \<Rightarrow> session \<Rightarrow> bool" where
  "oldest_first l [] s = True"
| "oldest_first l (e # es) s = (oldest_of l e s \<and> oldest_first l es (step e s))"

fun captions_of :: "pystr \<Rightarrow> (TranslateTask \<times> pystr outcome \<times> pystr) list \<Rightarrow> Transcription list" where
  "captions_of ident [] = []"
| "captions_of ident ((t, Returned resp, uid) # xs) =
     translated_caption ident t resp uid # captions_of ident xs"
| "captions_of ident ((t, Raised x, uid) # xs) = captions_of ident xs"

text \<open>Concrete inputs for the examples below.\<close>

abbreviation agent :: pystr where "agent \<equiv> str_of ''agent''"

abbreviation alice :: Participant where "alice \<equiv> \<lparr>identity = str_of ''alice''\<rparr>"

abbreviation mic :: Track where "mic \<equiv> \<lparr>sid = str_of ''TR_mic'', kind = KIND_AUDIO\<rparr>"

abbreviation wants :: "pystr \<Rightarrow> (pystr \<times> pystr) list" where
  "wants l \<equiv> [(str_of ''captions_language'', l)]"

abbreviation heard :: "pystr \<Rightarrow> SpeechEvent" where
  "heard m \<equiv> \<lparr>ev_type = FINAL_TRANSCRIPT,
     alternatives = [\<lparr>sd_language = str_of ''fr'', sd_text = m, sd_start_time = 3 / 2, sd_end_time = 5 / 2\<rparr>]\<rparr>"

abbreviation ok :: "unit outcome" where "ok \<equiv> Returned ()"

abbreviation spanish :: Translator where
  "spanish \<equiv> Translator_init \<lparr>enum_name = str_of ''es'', enum_value = str_of ''Spanish''\<rparr>"

section \<open>Strings of the examples\<close>

lemma str_of_eq_iff [simp]: "str_of a = str_of b \<longleftrightarrow> a = b"
  by (simp add: str_of_def inj_map_eq_map inj_of_char)

lemma str_of_Nil_iff [simp]: "str_of a = [] \<longleftrightarrow> a = []" "[] = str_of a \<longleftrightarrow> a = []"
  by (auto simp: str_of_def)

lemma str_of_append: "str_of a @ str_of b = str_of (a @ b)"
  by (simp add: str_of_def)

lemma strip_str_of:
  "strip (str_of s) =
     str_of (rev (dropWhile (\<lambda>c. isspace (of_char c)) (rev (dropWhile (\<lambda>c. isspace (of_char c)) s))))"
  by (simp add: strip_def str_of_def dropWhile_map rev_map comp_def)

lemmas fast_defs = step_def on_attributes_changed_def LanguageCode_getitem_def LanguageCode_def
  languages_def Translator_init_def start_def forward_transcription_def dispatch_def
  translate_def get_translation_def strip_str_of isspace_def shortuuid_def Let_def
  task_done_def translate_resume_def forward_transcription_resume_def

section \<open>The enum and the registry\<close>

lemma map_of_LanguageCode: "map_of LanguageCode l = map_option name (map_of languages l)"
  by (simp add: LanguageCode_def map_of_map)

lemma getitem_catalog:
  "LanguageCode_getitem l = Inr m \<Longrightarrow> l \<in> fst ` set languages \<and> enum_name m = l"
  by (force simp: LanguageCode_getitem_def map_of_LanguageCode
      split: option.splits dest: map_of_SomeD)

lemma catalog_getitem:
  "l \<in> fst ` set languages \<Longrightarrow> \<exists>m. LanguageCode_getitem l = Inr m"
  by (auto simp: LanguageCode_getitem_def map_of_LanguageCode map_of_eq_None_iff
      split: option.splits)

lemma not_catalog_getitem:
  "l \<notin> fst ` set languages \<Longrightarrow> LanguageCode_getitem l = Inl (KeyError l)"
  by (auto simp: LanguageCode_getitem_def map_of_LanguageCode map_of_eq_None_iff
      split: option.splits)

lemma catalog_nonempty: "l \<in> fst ` set languages \<Longrightarrow> l \<noteq> []"
  by (auto simp: languages_def str_of_def)

lemma update_fresh: "k \<notin> fst ` set al \<Longrightarrow> AList.update k v al = al @ [(k, v)]"
  by (induction al) auto

text \<open>
  A finished task keeps every field but the log. No handler but
  \<open>on_attributes_changed\<close> touches the registry, and it appends at most one entry.
\<close>

lemma translators_task_done [simp]: "translators (task_done r) = translators (snd r)"
  by (simp add: task_done_def split: option.splits)

lemma published_task_done [simp]: "published (task_done r) = published (snd r)"
  by (simp add: task_done_def split: option.splits)

lemma tasks_task_done [simp]: "tasks (task_done r) = tasks (snd r)"
  by (simp add: task_done_def split: option.splits)

lemma awaiting_task_done [simp]: "awaiting (task_done r) = awaiting (snd r)"
  by (simp add: task_done_def split: option.splits)

lemma local_identity_task_done [simp]: "local_identity (task_done r) = local_identity (snd r)"
  by (simp add: task_done_def split: option.splits)

lemma translators_forward [simp]:
  "translators (snd (forward_transcription ev p tr uid s)) = translators s"
  by (simp add: forward_transcription_def Let_def split: list.splits)

lemma translators_forward_resume [simp]:
  "translators (snd (forward_transcription_resume m tr pub s)) = translators s"
  by (simp add: forward_transcription_resume_def dispatch_def split: outcome.splits)

lemma translators_translate [simp]:
  "translators (snd (translate self m tr r uid s)) = translators s"
  by (simp add: translate_def get_translation_def Let_def split: outcome.splits)

lemma translators_translate_resume [simp]:
  "translators (snd (translate_resume self m translated pub s)) = translators s"
  by (simp add: translate_resume_def split: outcome.splits)

lemma translators_get_languages [simp]: "translators (snd (get_languages s)) = translators s"
  by (simp add: get_languages_def)

lemma translators_on_attributes_changed:
  "translators (on_attributes_changed attrs p s) = translators s \<or>
   (\<exists>l m. map_of attrs (str_of ''captions_language'') = Some l \<and> l \<noteq> [] \<and> l \<noteq> str_of ''en'' \<and>
      l \<notin> fst ` set (translators s) \<and> LanguageCode_getitem l = Inr m \<and>
      translators (on_attributes_changed attrs p s) = translators s @ [(l, Translator_init m)])"
  by (auto simp: on_attributes_changed_def update_fresh split: option.splits sum.splits)

lemma translators_step:
  "translators (step e s) = translators s \<or>
   (\<exists>l m. l \<noteq> [] \<and> l \<noteq> str_of ''en'' \<and> l \<notin> fst ` set (translators s) \<and>
      LanguageCode_getitem l = Inr m \<and> translators (step e s) = translators s @ [(l, Translator_init m)])"
proof (cases e)
  case (AttributesChanged attrs p)
  then show ?thesis
    using translators_on_attributes_changed [of attrs p s] by (auto simp: step_def)
qed (simp_all add: step_def Let_def split: suspended.splits)

text \<open>
  Along every run the keys of the registry stay distinct catalog codes other than
  \<open>en\<close>, and each translator carries its key as the name of its enum member.
\<close>

lemma pool_step:
  assumes "distinct (map fst (translators s))"
    and "\<forall>(k, t) \<in> set (translators s). k \<in> fst ` set languages \<and> k \<noteq> str_of ''en'' \<and> enum_name (lang t) = k"
  shows "distinct (map fst (translators (step e s))) \<and>
    (\<forall>(k, t) \<in> set (translators (step e s)). k \<in> fst ` set languages \<and> k \<noteq> str_of ''en'' \<and> enum_name (lang t) = k)"
proof -
  consider "translators (step e s) = translators s"
    | l m where "l \<noteq> str_of ''en''" "l \<notin> fst ` set (translators s)"
        "LanguageCode_getitem l = Inr m" "translators (step e s) = translators s @ [(l, Translator_init m)]"
    using translators_step [of e s] by blast
  then show ?thesis
  proof cases
    case 1
    then show ?thesis using assms by simp
  next
    case 2
    have "l \<in> fst ` set languages" "enum_name m = l"
      using getitem_catalog [OF 2(3)] by simp_all
    then show ?thesis using 2 assms by (auto simp: Translator_init_def)
  qed
qed

lemma pool_run:
  assumes "distinct (map fst (translators s))"
    and "\<forall>(k, t) \<in> set (translators s). k \<in> fst ` set languages \<and> k \<noteq> str_of ''en'' \<and> enum_name (lang t) = k"
  shows "distinct (map fst (translators (run evs s))) \<and>
    (\<forall>(k, t) \<in> set (translators (run evs s)). k \<in> fst ` set languages \<and> k \<noteq> str_of ''en'' \<and> enum_name (lang t) = k)"
  using assms
proof (induction evs arbitrary: s)
  case Nil
  then show ?case by simp
next
  case (Cons e evs)
  have "distinct (map fst (translators (step e s))) \<and>
    (\<forall>(k, t) \<in> set (translators (step e s)). k \<in> fst ` set languages \<and> k \<noteq> str_of ''en'' \<and> enum_name (lang t) = k)"
    using pool_step [OF Cons.prems] .
  then show ?case using Cons.IH [of "step e s"] by simp
qed

lemma keys_step_mono: "fst ` set (translators s) \<subseteq> fst ` set (translators (step e s))"
  using translators_step [of e s] by auto

lemma keys_run_mono: "fst ` set (translators s) \<subseteq> fst ` set (translators (run evs s))"
proof (induction evs arbitrary: s)
  case Nil
  show ?case by simp
next
  case (Cons e evs)
  show ?case using keys_step_mono [of s e] Cons.IH [of "step e s"] by auto
qed

lemma default_step:
  "str_of ''en'' \<notin> fst ` set (translators s) \<Longrightarrow> str_of ''en'' \<notin> fst ` set (translators (step e s))"
  using translators_step [of e s] by auto

lemma default_run:
  "str_of ''en'' \<notin> fst ` set (translators s) \<Longrightarrow> str_of ''en'' \<notin> fst ` set (translators (run evs s))"
proof (induction evs arbitrary: s)
  case Nil
  then show ?case by simp
next
  case (Cons e evs)
  then show ?case using default_step [of s e] by simp
qed

lemma distinct_run:
  "distinct (map fst (translators s)) \<Longrightarrow> distinct (map fst (translators (run evs s)))"
proof (induction evs arbitrary: s)
  case Nil
  then show ?case by simp
next
  case (Cons e evs)
  have "distinct (map fst (translators (step e s)))"
    using translators_step [of e s] Cons.prems by auto
  then show ?case using Cons.IH by simp
qed

lemma request_adds:
  assumes "map_of attrs (str_of ''captions_language'') = Some l" "l \<in> fst ` set languages" "l \<noteq> str_of ''en''"
  shows "l \<in> fst ` set (translators (on_attributes_changed attrs p s))"
proof -
  obtain m where m: "LanguageCode_getitem l = Inr m"
    using catalog_getitem [OF assms(2)] by blast
  show ?thesis
    using assms m catalog_nonempty [OF assms(2)]
    by (auto simp: on_attributes_changed_def AList.dom_update)
qed

lemma request_in_run:
  assumes "map_of attrs (str_of ''captions_language'') = Some l" "l \<in> fst ` set languages" "l \<noteq> str_of ''en''"
    and "AttributesChanged attrs p \<in> set evs"
  shows "l \<in> fst ` set (translators (run evs s))"
  using assms(4)
proof (induction evs arbitrary: s)
  case Nil
  then show ?case by simp
next
  case (Cons e evs)
  show ?case
  proof (cases "e = AttributesChanged attrs p")
    case True
    have "l \<in> fst ` set (translators (step e s))"
      using request_adds [of attrs l p s] assms(1-3) True by (simp add: step_def)
    then show ?thesis using keys_run_mono [of "step e s" evs] by auto
  next
    case False
    then show ?thesis using Cons by simp
  qed
qed

lemma distinct_key_count:
  "distinct ks \<Longrightarrow> l \<in> set ks \<Longrightarrow> count_list ks l = 1"
  by (induction ks) (auto simp: count_list_0_iff)

lemma active_noop:
  "map_of attrs (str_of ''captions_language'') = Some l \<Longrightarrow> l \<in> fst ` set (translators s) \<Longrightarrow>
   on_attributes_changed attrs p s = s"
  by (simp add: on_attributes_changed_def)

section \<open>What an event publishes and which tasks it leaves\<close>

lemma published_on_attributes_changed [simp]:
  "published (on_attributes_changed attrs p s) = published s"
  by (simp add: on_attributes_changed_def split: option.splits sum.splits)

lemma tasks_on_attributes_changed [simp]:
  "tasks (on_attributes_changed attrs p s) = tasks s"
  by (simp add: on_attributes_changed_def split: option.splits sum.splits)

lemma awaiting_on_attributes_changed [simp]:
  "awaiting (on_attributes_changed attrs p s) = awaiting s"
  by (simp add: on_attributes_changed_def split: option.splits sum.splits)

lemma local_identity_step [simp]: "local_identity (step e s) = local_identity s"
  by (cases e)
    (simp_all add: step_def on_attributes_changed_def forward_transcription_def dispatch_def
      forward_transcription_resume_def translate_def translate_resume_def
      get_translation_def get_languages_def Let_def
      split: option.splits sum.splits list.splits outcome.splits suspended.splits)

lemma published_forward:
  "published (snd (forward_transcription ev p tr uid s)) =
     (if ev_type ev = FINAL_TRANSCRIPT \<and> alternatives ev \<noteq> [] then
        published s @ [\<lparr>participant_identity = identity p, track_sid = sid tr,
          segments = [\<lparr>seg_id = shortuuid (str_of ''SG_'') uid, seg_text = sd_text (hd (alternatives ev)),
            start_time = 0, end_time = 0, language = str_of ''en'', final = True\<rparr>]\<rparr>]
      else published s)"
  by (simp add: forward_transcription_def Let_def split: list.splits)

lemma published_forward_resume [simp]:
  "published (snd (forward_transcription_resume m tr pub s)) = published s"
  by (simp add: forward_transcription_resume_def dispatch_def split: outcome.splits)

lemma published_translate:
  "published (snd (translate self m tr r uid s)) =
     (case r of
        Raised e \<Rightarrow> published s
      | Returned resp \<Rightarrow>
          published s @ [\<lparr>participant_identity = local_identity s, track_sid = sid tr,
            segments = [\<lparr>seg_id = shortuuid (str_of ''SG_'') uid, seg_text = strip resp,
              start_time = 0, end_time = 0, language = enum_name (lang self), final = True\<rparr>]\<rparr>])"
  by (simp add: translate_def get_translation_def Let_def split: outcome.splits)

lemma published_translate_resume [simp]:
  "published (snd (translate_resume self m translated pub s)) = published s"
  by (simp add: translate_resume_def split: outcome.splits)

lemma published_step:
  "published (step e s) = published s \<or>
   (\<exists>pid tsid u resp l. draws e = [u] \<and>
      published (step e s) = published s @ [\<lparr>participant_identity = pid, track_sid = tsid,
        segments = [\<lparr>seg_id = shortuuid (str_of ''SG_'') u, seg_text = resp,
          start_time = 0, end_time = 0, language = l, final = True\<rparr>]\<rparr>])"
proof (cases e)
  case (AttributesChanged attrs p)
  then show ?thesis by (simp add: step_def)
next
  case (Speech ev p tr uid)
  then show ?thesis by (simp add: step_def published_forward)
next
  case (TranslationReturns k r uid)
  then show ?thesis by (simp add: step_def published_translate Let_def split: outcome.splits)
next
  case (PublishReturns k pub)
  then show ?thesis by (simp add: step_def Let_def split: suspended.splits)
next
  case GetLanguages
  then show ?thesis by (simp add: step_def get_languages_def)
qed

lemma times_step:
  assumes "list_all (\<lambda>tr. list_all (\<lambda>seg. start_time seg = 0 \<and> end_time seg = 0) (segments tr)) (published s)"
  shows "list_all (\<lambda>tr. list_all (\<lambda>seg. start_time seg = 0 \<and> end_time seg = 0) (segments tr)) (published (step e s))"
  using published_step [of e s] assms by auto

lemma times_run:
  assumes "list_all (\<lambda>tr. list_all (\<lambda>seg. start_time seg = 0 \<and> end_time seg = 0) (segments tr)) (published s)"
  shows "list_all (\<lambda>tr. list_all (\<lambda>seg. start_time seg = 0 \<and> end_time seg = 0) (segments tr)) (published (run evs s))"
  using assms
proof (induction evs arbitrary: s)
  case Nil
  then show ?case by simp
next
  case (Cons e evs)
  then show ?case using times_step [of s e] by simp
qed

lemma ids_step:
  "published_ids (step e s) = published_ids s \<or>
   (\<exists>u. draws e = [u] \<and> published_ids (step e s) = published_ids s @ [shortuuid (str_of ''SG_'') u])"
  using published_step [of e s] by auto

lemma ids_run:
  assumes "distinct (published_ids s)" "distinct (concat (map draws evs))"
    and "\<forall>u \<in> set (concat (map draws evs)). shortuuid (str_of ''SG_'') u \<notin> set (published_ids s)"
  shows "distinct (published_ids (run evs s))"
  using assms
proof (induction evs arbitrary: s)
  case Nil
  then show ?case by simp
next
  case (Cons e evs)
  consider "published_ids (step e s) = published_ids s"
    | u where "draws e = [u]" "published_ids (step e s) = published_ids s @ [shortuuid (str_of ''SG_'') u]"
    using ids_step [of e s] by blast
  then have "distinct (published_ids (step e s)) \<and>
    (\<forall>u \<in> set (concat (map draws evs)). shortuuid (str_of ''SG_'') u \<notin> set (published_ids (step e s)))"
  proof cases
    case 1
    then show ?thesis using Cons.prems by simp
  next
    case 2
    then show ?thesis using Cons.prems by (auto simp: shortuuid_def)
  qed
  moreover have "distinct (concat (map draws evs))"
    using Cons.prems(2) by simp
  ultimately show ?case using Cons.IH [of "step e s"] by simp
qed

lemma tasks_translate [simp]: "tasks (snd (translate self m tr r uid s)) = tasks s"
  by (simp add: translate_def get_translation_def Let_def split: outcome.splits)

lemma tasks_translate_resume [simp]: "tasks (snd (translate_resume self m translated pub s)) = tasks s"
  by (simp add: translate_resume_def split: outcome.splits)

lemma tasks_forward [simp]: "tasks (snd (forward_transcription ev p tr uid s)) = tasks s"
  by (simp add: forward_transcription_def Let_def split: list.splits)

lemma tasks_forward_resume:
  "tasks (snd (forward_transcription_resume m tr pub s)) =
     (case pub of
        Raised e \<Rightarrow> tasks s
      | Returned u \<Rightarrow>
          tasks s @ map (\<lambda>t. \<lparr>task_translator = t, task_message = m, task_track = tr\<rparr>)
                        (map snd (translators s)))"
  by (simp add: forward_transcription_resume_def dispatch_def split: outcome.splits)

lemma step_answer:
  assumes "k < length (tasks s)"
  shows "published (step (TranslationReturns k (Returned resp) uid) s) =
           published s @ [translated_caption (local_identity s) (tasks s ! k) resp uid]"
    and "published (step (TranslationReturns k (Raised x) uid) s) = published s"
    and "tasks (step (TranslationReturns k r uid) s) = take k (tasks s) @ drop (Suc k) (tasks s)"
  using assms by (simp_all add: step_def Let_def published_translate)

lemma step_publish_returns:
  "tasks (step (PublishReturns k pub) s) =
     (if k < length (awaiting s) then
        (case awaiting s ! k of
           Forwarding m tr \<Rightarrow>
             (case pub of
                Raised e \<Rightarrow> tasks s
              | Returned u \<Rightarrow>
                  tasks s @ map (\<lambda>t. \<lparr>task_translator = t, task_message = m, task_track = tr\<rparr>)
                                (map snd (translators s)))
         | Translating self m translated \<Rightarrow> tasks s)
      else tasks s)"
  by (simp add: step_def Let_def tasks_forward_resume split: suspended.splits outcome.splits)

lemma tasks_step:
  "\<exists>k new. tasks (step e s) = take k (tasks s) @ drop (Suc k) (tasks s) @ new \<and>
     task_translator ` set new \<subseteq> snd ` set (translators s)"
proof (cases e)
  case (AttributesChanged attrs p)
  then show ?thesis
    by (auto simp: step_def intro!: exI [of _ "length (tasks s)"] exI [of _ "[]"])
next
  case (Speech ev p tr uid)
  then show ?thesis
    by (auto simp: step_def intro!: exI [of _ "length (tasks s)"] exI [of _ "[]"])
next
  case (TranslationReturns k r uid)
  show ?thesis
  proof (cases "k < length (tasks s)")
    case True
    then show ?thesis
      unfolding TranslationReturns
      by (intro exI [of _ k] exI [of _ "[]"]) (simp add: step_def Let_def)
  next
    case False
    then show ?thesis
      unfolding TranslationReturns
      by (intro exI [of _ "length (tasks s)"] exI [of _ "[]"]) (simp add: step_def)
  qed
next
  case (PublishReturns k pub)
  have "\<exists>new. tasks (step e s) = tasks s @ new \<and> task_translator ` set new \<subseteq> snd ` set (translators s)"
    unfolding PublishReturns step_publish_returns
    by (auto simp: image_image split: suspended.splits outcome.splits intro: rev_image_eqI)
  then obtain new where "tasks (step e s) = tasks s @ new"
    "task_translator ` set new \<subseteq> snd ` set (translators s)" by blast
  then show ?thesis
    by (intro exI [of _ "length (tasks s)"] exI [of _ new]) simp
next
  case GetLanguages
  then show ?thesis
    by (auto simp: step_def get_languages_def intro!: exI [of _ "length (tasks s)"] exI [of _ "[]"])
qed

lemma tasks_pool_step:
  assumes "task_translator ` set (tasks s) \<subseteq> snd ` set (translators s)"
  shows "task_translator ` set (tasks (step e s)) \<subseteq> snd ` set (translators (step e s))"
proof -
  obtain k new where kn: "tasks (step e s) = take k (tasks s) @ drop (Suc k) (tasks s) @ new"
    "task_translator ` set new \<subseteq> snd ` set (translators s)"
    using tasks_step [of e s] by blast
  have "set (tasks (step e s)) \<subseteq> set (tasks s) \<union> set new"
    using kn(1) set_take_subset [of k "tasks s"] set_drop_subset [of "Suc k" "tasks s"] by auto
  then have "task_translator ` set (tasks (step e s)) \<subseteq> task_translator ` set (tasks s) \<union> task_translator ` set new"
    by blast
  then have "task_translator ` set (tasks (step e s)) \<subseteq> snd ` set (translators s)"
    using kn(2) assms by blast
  moreover have "snd ` set (translators s) \<subseteq> snd ` set (translators (step e s))"
    using translators_step [of e s] by auto
  ultimately show ?thesis by blast
qed

lemma tasks_pool_run:
  assumes "task_translator ` set (tasks s) \<subseteq> snd ` set (translators s)"
  shows "task_translator ` set (tasks (run evs s)) \<subseteq> snd ` set (translators (run evs s))"
  using assms
proof (induction evs arbitrary: s)
  case Nil
  then show ?case by simp
next
  case (Cons e evs)
  then show ?case using tasks_pool_step [of s e] by simp
qed

section \<open>Captions of one language along a run\<close>

lemma captions_of_append [simp]:
  "captions_of ident (xs @ ys) = captions_of ident xs @ captions_of ident ys"
  by (induction ident xs rule: captions_of.induct) simp_all

lemma of_language_append [simp]:
  "of_language l (xs @ ys) = of_language l xs @ of_language l ys"
  by (simp add: of_language_def)

lemma of_language_step:
  assumes "l \<noteq> str_of ''en''"
  shows "of_language l (published (step e s)) =
           of_language l (published s) @
           captions_of (local_identity s) (filter (\<lambda>x. task_lang (fst x) = l) (answer_of e s))"
proof (cases e)
  case (AttributesChanged attrs p)
  then show ?thesis by (simp add: step_def answer_of_def)
next
  case (Speech ev p tr uid)
  then show ?thesis using assms
    by (simp add: step_def answer_of_def published_forward of_language_def)
next
  case (TranslationReturns k r uid)
  show ?thesis
  proof (cases "k < length (tasks s)")
    case True
    then show ?thesis
      unfolding TranslationReturns
      by (cases r) (simp_all add: step_answer answer_of_def of_language_def)
  next
    case False
    then show ?thesis
      unfolding TranslationReturns by (simp add: step_def answer_of_def)
  qed
next
  case (PublishReturns k pub)
  then show ?thesis by (simp add: step_def answer_of_def Let_def split: suspended.splits)
next
  case GetLanguages
  then show ?thesis by (simp add: step_def answer_of_def get_languages_def)
qed

lemma of_language_run:
  assumes "l \<noteq> str_of ''en''"
  shows "of_language l (published (run evs s)) =
           of_language l (published s) @
           captions_of (local_identity s) (filter (\<lambda>x. task_lang (fst x) = l) (returned evs s))"
proof (induction evs arbitrary: s)
  case Nil
  show ?case by simp
next
  case (Cons e evs)
  show ?case
    using Cons.IH [of "step e s"] of_language_step [OF assms, of e s] by simp
qed

lemma start_order_step:
  assumes "oldest_of l e s"
  shows "filter (\<lambda>t. task_lang t = l) (map fst (answer_of e s)) @
           filter (\<lambda>t. task_lang t = l) (tasks (step e s)) =
         filter (\<lambda>t. task_lang t = l) (tasks s) @ filter (\<lambda>t. task_lang t = l) (spawn_of e s)"
proof (cases e)
  case (AttributesChanged attrs p)
  then show ?thesis by (simp add: step_def answer_of_def spawn_of_def)
next
  case (Speech ev p tr uid)
  then show ?thesis by (simp add: step_def answer_of_def spawn_of_def)
next
  case (TranslationReturns k r uid)
  show ?thesis
  proof (cases "k < length (tasks s)")
    case True
    let ?t = "tasks s ! k"
    have split: "tasks s = take k (tasks s) @ ?t # drop (Suc k) (tasks s)"
      using True by (rule id_take_nth_drop)
    have after: "tasks (step e s) = take k (tasks s) @ drop (Suc k) (tasks s)"
      unfolding TranslationReturns using True by (rule step_answer(3))
    have ans: "answer_of e s = [(?t, r, uid)]"
      unfolding TranslationReturns using True by (simp add: answer_of_def)
    have sp: "spawn_of e s = []"
      unfolding TranslationReturns by (simp add: spawn_of_def)
    show ?thesis
    proof (cases "task_lang ?t = l")
      case same: True
      then have "l \<notin> task_lang ` set (take k (tasks s))"
        using assms True unfolding TranslationReturns by (simp add: oldest_of_def)
      then have none: "filter (\<lambda>t. task_lang t = l) (take k (tasks s)) = []"
        by (auto simp: filter_empty_conv)
      have "filter (\<lambda>t. task_lang t = l) (tasks s) =
              ?t # filter (\<lambda>t. task_lang t = l) (drop (Suc k) (tasks s))"
        by (subst split) (simp add: none same)
      then show ?thesis by (simp add: ans sp after none same)
    next
      case other: False
      have "filter (\<lambda>t. task_lang t = l) (tasks s) =
              filter (\<lambda>t. task_lang t = l) (take k (tasks s)) @
              filter (\<lambda>t. task_lang t = l) (drop (Suc k) (tasks s))"
        by (subst split) (simp add: other)
      then show ?thesis by (simp add: ans sp after other)
    qed
  next
    case False
    then show ?thesis
      unfolding TranslationReturns by (simp add: step_def answer_of_def spawn_of_def)
  qed
next
  case (PublishReturns k pub)
  have "\<exists>new. tasks (step e s) = tasks s @ new"
    unfolding PublishReturns step_publish_returns
    by (simp split: suspended.splits outcome.splits)
  then obtain new where "tasks (step e s) = tasks s @ new" by blast
  then show ?thesis
    unfolding PublishReturns by (simp add: answer_of_def spawn_of_def)
next
  case GetLanguages
  then show ?thesis by (simp add: step_def answer_of_def spawn_of_def get_languages_def)
qed

lemma start_order_run:
  assumes "oldest_first l evs s"
  shows "filter (\<lambda>t. task_lang t = l) (map fst (returned evs s)) @
           filter (\<lambda>t. task_lang t = l) (tasks (run evs s)) =
         filter (\<lambda>t. task_lang t = l) (tasks s) @ filter (\<lambda>t. task_lang t = l) (spawned evs s)"
  using assms
proof (induction evs arbitrary: s)
  case Nil
  show ?case by simp
next
  case (Cons e evs)
  let ?f = "filter (\<lambda>t. task_lang t = l)"
  have one: "?f (map fst (answer_of e s)) @ ?f (tasks (step e s)) = ?f (tasks s) @ ?f (spawn_of e s)"
    using start_order_step [of l e s] Cons.prems by simp
  have rest: "?f (map fst (returned evs (step e s))) @ ?f (tasks (run evs (step e s))) =
                ?f (tasks (step e s)) @ ?f (spawned evs (step e s))"
    using Cons.IH [of "step e s"] Cons.prems by simp
  have "?f (map fst (returned (e # evs) s)) @ ?f (tasks (run (e # evs) s)) =
          ?f (map fst (answer_of e s)) @ (?f (map fst (returned evs (step e s))) @ ?f (tasks (run evs (step e s))))"
    by simp
  also have "\<dots> = (?f (map fst (answer_of e s)) @ ?f (tasks (step e s))) @ ?f (spawned evs (step e s))"
    by (simp only: rest append_assoc)
  also have "\<dots> = ?f (tasks s) @ ?f (spawned (e # evs) s)"
    by (simp only: one) simp
  finally show ?case .
qed

section \<open>The log\<close>

lemma step_log_irrelevant:
  "(step e (s\<lparr>logged := l\<rparr>))\<lparr>logged := l'\<rparr> = (step e s)\<lparr>logged := l'\<rparr>"
  by (cases e)
    (simp_all add: step_def on_attributes_changed_def forward_transcription_def dispatch_def
      forward_transcription_resume_def translate_def translate_resume_def task_done_def
      get_translation_def get_languages_def Let_def
      split: option.splits sum.splits list.splits outcome.splits suspended.splits)

lemma run_log_irrelevant:
  "(run evs (s\<lparr>logged := l\<rparr>))\<lparr>logged := l'\<rparr> = (run evs s)\<lparr>logged := l'\<rparr>"
proof (induction evs arbitrary: s l)
  case Nil
  show ?case by simp
next
  case (Cons e evs)
  have "step e (s\<lparr>logged := l\<rparr>) = (step e s)\<lparr>logged := logged (step e (s\<lparr>logged := l\<rparr>))\<rparr>"
    using step_log_irrelevant [where e = e and s = s and l = l
        and l' = "logged (step e (s\<lparr>logged := l\<rparr>))"] by simp
  then show ?case
    using Cons.IH [where s = "step e s" and l = "logged (step e (s\<lparr>logged := l\<rparr>))"] by simp
qed

lemma logged_step: "\<exists>l. logged (step e s) = logged s @ l"
  by (cases e)
    (auto simp: step_def on_attributes_changed_def forward_transcription_def dispatch_def
      forward_transcription_resume_def translate_def translate_resume_def task_done_def
      get_translation_def get_languages_def Let_def
      split: option.splits sum.splits list.splits outcome.splits suspended.splits)

lemma logged_run: "\<exists>l. logged (run evs s) = logged s @ l"
proof (induction evs arbitrary: s)
  case Nil
  show ?case by simp
next
  case (Cons e evs)
  obtain l1 where "logged (step e s) = logged s @ l1" using logged_step by blast
  moreover obtain l2 where "logged (run evs (step e s)) = logged (step e s) @ l2"
    using Cons.IH by blast
  ultimately show ?case by simp
qed

section \<open>Per-language order of translated captions\<close>

text \<open>
  Claim C1, as amended. \<open>_forward_transcription\<close> starts one independent task per
  segment and translator, and a task calls \<open>publish_transcription\<close> as soon as its own
  backend call returns; there is no queue per language. For every language other than the
  default \<open>en\<close> (for which no translator exists), every starting state and every
  sequence of events, the captions of that language are published in the order in which
  the backend calls of that language return: what the run adds to them is, call by
  returning call, the caption built from that call's own task and answer, and nothing for
  a call that fails. When every returning call of the language is the oldest call of that
  language in flight, the calls of the language that have returned, in the order they
  returned, followed by those still in flight, are all the calls of the language in the
  order they were started; so its captions are then published in dispatch order, whatever
  the calls of other languages do.
\<close>

theorem captions_follow_returns:
  assumes "l \<noteq> str_of ''en''"
  shows "of_language l (published (run evs s)) =
           of_language l (published s) @
           captions_of (local_identity s) (filter (\<lambda>x. task_lang (fst x) = l) (returned evs s)) \<and>
         (oldest_first l evs s \<longrightarrow>
            filter (\<lambda>t. task_lang t = l) (map fst (returned evs s)) @
              filter (\<lambda>t. task_lang t = l) (tasks (run evs s)) =
            filter (\<lambda>t. task_lang t = l) (tasks s) @ filter (\<lambda>t. task_lang t = l) (spawned evs s))"
  using of_language_run [OF assms, of evs s] start_order_run [of l evs s] by blast

theorem captions_follow_returns_witness:
  "str_of ''es'' \<noteq> str_of ''en'' \<and>
   oldest_first (str_of ''es'')
     [AttributesChanged (wants (str_of ''es'')) alice, AttributesChanged (wants (str_of ''fr'')) alice,
      Speech (heard (str_of ''one'')) alice mic (str_of ''a1''), PublishReturns 0 ok,
      Speech (heard (str_of ''two'')) alice mic (str_of ''a2''), PublishReturns 0 ok,
      TranslationReturns 1 (Returned (str_of ''un'')) (str_of ''b1''),
      TranslationReturns 0 (Returned (str_of ''uno'')) (str_of ''b2''),
      TranslationReturns 1 (Returned (str_of ''deux'')) (str_of ''b3''),
      TranslationReturns 0 (Returned (str_of ''dos'')) (str_of ''b4'')] (start agent) \<and>
   map task_message (filter (\<lambda>t. task_lang t = str_of ''es'') (spawned
     [AttributesChanged (wants (str_of ''es'')) alice, AttributesChanged (wants (str_of ''fr'')) alice,
      Speech (heard (str_of ''one'')) alice mic (str_of ''a1''), PublishReturns 0 ok,
      Speech (heard (str_of ''two'')) alice mic (str_of ''a2''), PublishReturns 0 ok,
      TranslationReturns 1 (Returned (str_of ''un'')) (str_of ''b1''),
      TranslationReturns 0 (Returned (str_of ''uno'')) (str_of ''b2''),
      TranslationReturns 1 (Returned (str_of ''deux'')) (str_of ''b3''),
      TranslationReturns 0 (Returned (str_of ''dos'')) (str_of ''b4'')] (start agent))) =
     [str_of ''one'', str_of ''two''] \<and>
   map seg_text (concat (map segments (of_language (str_of ''es'') (published (run
     [AttributesChanged (wants (str_of ''es'')) alice, AttributesChanged (wants (str_of ''fr'')) alice,
      Speech (heard (str_of ''one'')) alice mic (str_of ''a1''), PublishReturns 0 ok,
      Speech (heard (str_of ''two'')) alice mic (str_of ''a2''), PublishReturns 0 ok,
      TranslationReturns 1 (Returned (str_of ''un'')) (str_of ''b1''),
      TranslationReturns 0 (Returned (str_of ''uno'')) (str_of ''b2''),
      TranslationReturns 1 (Returned (str_of ''deux'')) (str_of ''b3''),
      TranslationReturns 0 (Returned (str_of ''dos'')) (str_of ''b4'')] (start agent)))))) =
     [str_of ''uno'', str_of ''dos'']"
proof -
  have a: "str_of ''es'' \<noteq> str_of ''en''"
    by simp
  have b: "oldest_first (str_of ''es'')
     [AttributesChanged (wants (str_of ''es'')) alice, AttributesChanged (wants (str_of ''fr'')) alice,
      Speech (heard (str_of ''one'')) alice mic (str_of ''a1''), PublishReturns 0 ok,
      Speech (heard (str_of ''two'')) alice mic (str_of ''a2''), PublishReturns 0 ok,
      TranslationReturns 1 (Returned (str_of ''un'')) (str_of ''b1''),
      TranslationReturns 0 (Returned (str_of ''uno'')) (str_of ''b2''),
      TranslationReturns 1 (Returned (str_of ''deux'')) (str_of ''b3''),
      TranslationReturns 0 (Returned (str_of ''dos'')) (str_of ''b4'')] (start agent)"
    by (simp add: fast_defs oldest_of_def)
  have c: "map task_message (filter (\<lambda>t. task_lang t = str_of ''es'') (spawned
     [AttributesChanged (wants (str_of ''es'')) alice, AttributesChanged (wants (str_of ''fr'')) alice,
      Speech (heard (str_of ''one'')) alice mic (str_of ''a1''), PublishReturns 0 ok,
      Speech (heard (str_of ''two'')) alice mic (str_of ''a2''), PublishReturns 0 ok,
      TranslationReturns 1 (Returned (str_of ''un'')) (str_of ''b1''),
      TranslationReturns 0 (Returned (str_of ''uno'')) (str_of ''b2''),
      TranslationReturns 1 (Returned (str_of ''deux'')) (str_of ''b3''),
      TranslationReturns 0 (Returned (str_of ''dos'')) (str_of ''b4'')] (start agent))) =
     [str_of ''one'', str_of ''two'']"
    by (simp add: fast_defs spawn_of_def)
  have d: "map seg_text (concat (map segments (of_language (str_of ''es'') (published (run
     [AttributesChanged (wants (str_of ''es'')) alice, AttributesChanged (wants (str_of ''fr'')) alice,
      Speech (heard (str_of ''one'')) alice mic (str_of ''a1''), PublishReturns 0 ok,
      Speech (heard (str_of ''two'')) alice mic (str_of ''a2''), PublishReturns 0 ok,
      TranslationReturns 1 (Returned (str_of ''un'')) (str_of ''b1''),
      TranslationReturns 0 (Returned (str_of ''uno'')) (str_of ''b2''),
      TranslationReturns 1 (Returned (str_of ''deux'')) (str_of ''b3''),
      TranslationReturns 0 (Returned (str_of ''dos'')) (str_of ''b4'')] (start agent)))))) =
     [str_of ''uno'', str_of ''dos'']"
    by (simp add: fast_defs of_language_def)
  show ?thesis
    using captions_follow_returns [OF a, of
     "[AttributesChanged (wants (str_of ''es'')) alice, AttributesChanged (wants (str_of ''fr'')) alice,
      Speech (heard (str_of ''one'')) alice mic (str_of ''a1''), PublishReturns 0 ok,
      Speech (heard (str_of ''two'')) alice mic (str_of ''a2''), PublishReturns 0 ok,
      TranslationReturns 1 (Returned (str_of ''un'')) (str_of ''b1''),
      TranslationReturns 0 (Returned (str_of ''uno'')) (str_of ''b2''),
      TranslationReturns 1 (Returned (str_of ''deux'')) (str_of ''b3''),
      TranslationReturns 0 (Returned (str_of ''dos'')) (str_of ''b4'')]" "start agent"] a b c d
    by blast
qed

text \<open>
  Claim C1 as stated fails: with Spanish active, the segments \<open>one\<close> and \<open>two\<close>
  are dispatched in this order; the backend answers the second call first, and the
  translation of \<open>two\<close> is published before the translation of \<open>one\<close>.
\<close>

theorem later_segment_published_first:
  "map task_message (tasks (run
     [AttributesChanged (wants (str_of ''es'')) alice,
      Speech (heard (str_of ''one'')) alice mic (str_of ''a1''), PublishReturns 0 ok,
      Speech (heard (str_of ''two'')) alice mic (str_of ''a2''), PublishReturns 0 ok] (start agent))) =
     [str_of ''one'', str_of ''two''] \<and>
   map seg_text (concat (map segments (published (run
     [AttributesChanged (wants (str_of ''es'')) alice,
      Speech (heard (str_of ''one'')) alice mic (str_of ''a1''), PublishReturns 0 ok,
      Speech (heard (str_of ''two'')) alice mic (str_of ''a2''), PublishReturns 0 ok,
      TranslationReturns 1 (Returned (str_of ''dos'')) (str_of ''b2''),
      TranslationReturns 0 (Returned (str_of ''uno'')) (str_of ''b1'')] (start agent))))) =
     [str_of ''one'', str_of ''two'', str_of ''dos'', str_of ''uno''] \<and>
   map language (concat (map segments (published (run
     [AttributesChanged (wants (str_of ''es'')) alice,
      Speech (heard (str_of ''one'')) alice mic (str_of ''a1''), PublishReturns 0 ok,
      Speech (heard (str_of ''two'')) alice mic (str_of ''a2''), PublishReturns 0 ok,
      TranslationReturns 1 (Returned (str_of ''dos'')) (str_of ''b2''),
      TranslationReturns 0 (Returned (str_of ''uno'')) (str_of ''b1'')] (start agent))))) =
     [str_of ''en'', str_of ''en'', str_of ''es'', str_of ''es'']"
  by (simp add: fast_defs)

section \<open>Fan-out of a final segment\<close>




section \<open>One translator per language code\<close>

text \<open>
  Claim C3, as amended. Whatever events follow, the registry keeps at most one entry per
  language code; a request for a code that is already active changes nothing at all; and
  once at least one request for a catalog code other than the default \<open>en\<close> has been
  handled, the registry holds exactly one translator for that code, however many requests
  for it there were and whatever other events came between them.
\<close>

theorem one_translator_per_code:
  assumes "distinct (map fst (translators s))"
    and "map_of attrs (str_of ''captions_language'') = Some l"
  shows "distinct (map fst (translators (run evs s))) \<and>
    (l \<in> fst ` set (translators s) \<longrightarrow> on_attributes_changed attrs p s = s) \<and>
    (l \<in> fst ` set languages \<and> l \<noteq> str_of ''en'' \<and> AttributesChanged attrs p \<in> set evs \<longrightarrow>
       count_list (map fst (translators (run evs s))) l = 1)"
  using distinct_run [OF assms(1), of evs] active_noop [of attrs l s p] assms(2)
    request_in_run [of attrs l p evs s] distinct_key_count [of "map fst (translators (run evs s))" l]
  by auto

theorem one_translator_per_code_witness:
  "distinct (map fst (translators (start agent))) \<and>
   map_of (wants (str_of ''es'')) (str_of ''captions_language'') = Some (str_of ''es'') \<and>
   str_of ''es'' \<in> fst ` set languages \<and> str_of ''es'' \<noteq> str_of ''en'' \<and>
   AttributesChanged (wants (str_of ''es'')) alice \<in>
     set [AttributesChanged (wants (str_of ''es'')) alice, AttributesChanged (wants (str_of ''es'')) alice,
          AttributesChanged (wants (str_of ''es'')) alice] \<and>
   count_list (map fst (translators
     (run [AttributesChanged (wants (str_of ''es'')) alice, AttributesChanged (wants (str_of ''es'')) alice,
           AttributesChanged (wants (str_of ''es'')) alice] (start agent)))) (str_of ''es'') = 1 \<and>
   str_of ''es'' \<in> fst ` set (translators (step (AttributesChanged (wants (str_of ''es'')) alice) (start agent))) \<and>
   on_attributes_changed (wants (str_of ''es'')) alice
     (step (AttributesChanged (wants (str_of ''es'')) alice) (start agent)) =
     step (AttributesChanged (wants (str_of ''es'')) alice) (start agent)"
  using one_translator_per_code [of "start agent" "wants (str_of ''es'')" "str_of ''es''"
      "[AttributesChanged (wants (str_of ''es'')) alice, AttributesChanged (wants (str_of ''es'')) alice,
        AttributesChanged (wants (str_of ''es'')) alice]" alice]
    one_translator_per_code [of "step (AttributesChanged (wants (str_of ''es'')) alice) (start agent)"
      "wants (str_of ''es'')" "str_of ''es''" "[]" alice]
  by (simp add: fast_defs)

text \<open>
  Claim C3 as stated fails for the default language: \<open>en\<close> is a code of the catalog
  and never active, and requests for it leave the registry without a translator for it.
\<close>

theorem default_code_gets_no_translator:
  "str_of ''en'' \<in> fst ` set languages \<and>
   str_of ''en'' \<notin> fst ` set (translators (start agent)) \<and>
   count_list (map fst (translators
     (run [AttributesChanged (wants (str_of ''en'')) alice, AttributesChanged (wants (str_of ''en'')) alice]
        (start agent)))) (str_of ''en'') = 0"
  by (simp add: fast_defs)

section \<open>Codes outside the catalog\<close>

text \<open>
  Claim C4, as amended. In every state of a session run from its start, a notification
  whose requested code is a non-empty string absent from the catalog appends the warning
  \<open>[Language] Unsupported code: ...\<close> to the log and changes nothing else: no
  translator is created and the registry, the published captions and the tasks are as they
  were.
\<close>

theorem unknown_code_rejected:
  assumes "map_of attrs (str_of ''captions_language'') = Some l" "l \<noteq> []" "l \<notin> fst ` set languages"
  shows "on_attributes_changed attrs p (run evs (start ident)) =
    (run evs (start ident))\<lparr>logged := logged (run evs (start ident)) @
       [LogWarning (str_of ''[Language] Unsupported code: '' @ l)]\<rparr>"
proof -
  have "\<forall>(k, t) \<in> set (translators (run evs (start ident))). k \<in> fst ` set languages \<and> k \<noteq> str_of ''en'' \<and> enum_name (lang t) = k"
    using pool_run [of "start ident" evs] by (simp add: start_def)
  then have "l \<notin> fst ` set (translators (run evs (start ident)))"
    using assms(3) by auto
  moreover have "l \<noteq> str_of ''en''"
    using assms(3) by (auto simp: languages_def)
  ultimately show ?thesis
    using assms not_catalog_getitem [OF assms(3)]
    by (simp add: on_attributes_changed_def)
qed

theorem unknown_code_rejected_witness:
  "map_of (wants (str_of ''xx'')) (str_of ''captions_language'') = Some (str_of ''xx'') \<and>
   str_of ''xx'' \<noteq> [] \<and> str_of ''xx'' \<notin> fst ` set languages \<and>
   on_attributes_changed (wants (str_of ''xx'')) alice
       (run [AttributesChanged (wants (str_of ''es'')) alice] (start agent)) =
     (run [AttributesChanged (wants (str_of ''es'')) alice] (start agent))
       \<lparr>logged := logged (run [AttributesChanged (wants (str_of ''es'')) alice] (start agent)) @
          [LogWarning (str_of ''[Language] Unsupported code: xx'')]\<rparr>"
  using unknown_code_rejected [of "wants (str_of ''xx'')" "str_of ''xx''" alice
      "[AttributesChanged (wants (str_of ''es'')) alice]" agent]
  by (simp add: fast_defs str_of_append)

text \<open>
  Claim C4 as stated fails for the empty string: it is absent from the catalog, and the
  guard \<open>if lang and ...\<close> drops the request without logging a rejection.
\<close>

theorem empty_code_not_logged:
  "map_of (wants []) (str_of ''captions_language'') = Some [] \<and> [] \<notin> fst ` set languages \<and>
   on_attributes_changed (wants []) alice (start agent) = start agent \<and>
   logged (on_attributes_changed (wants []) alice (start agent)) = []"
  by (simp add: fast_defs)

section \<open>The default language\<close>

text \<open>
  Claim C5. No event creates a translator for the default language \<open>en\<close>: a registry
  without such an entry keeps none along every run, in particular along every run from the
  start of a session, and a request naming \<open>en\<close> leaves the whole state unchanged.
\<close>

theorem no_translator_for_default:
  "(str_of ''en'' \<notin> fst ` set (translators s) \<longrightarrow>
      str_of ''en'' \<notin> fst ` set (translators (run evs s))) \<and>
   str_of ''en'' \<notin> fst ` set (translators (run evs (start ident))) \<and>
   (map_of attrs (str_of ''captions_language'') = Some (str_of ''en'') \<longrightarrow>
      on_attributes_changed attrs p s = s)"
  using default_run [of s evs] default_run [of "start ident" evs]
  by (simp add: on_attributes_changed_def start_def)

theorem no_translator_for_default_witness:
  "str_of ''en'' \<notin> fst ` set (translators (start agent)) \<and>
   map_of (wants (str_of ''en'')) (str_of ''captions_language'') = Some (str_of ''en'') \<and>
   map fst (translators
      (run [AttributesChanged (wants (str_of ''en'')) alice, AttributesChanged (wants (str_of ''fr'')) alice]
         (start agent))) = [str_of ''fr''] \<and>
   on_attributes_changed (wants (str_of ''en'')) alice (start agent) = start agent"
  using no_translator_for_default [of "start agent"
      "[AttributesChanged (wants (str_of ''en'')) alice, AttributesChanged (wants (str_of ''fr'')) alice]"
      agent "wants (str_of ''en'')" alice]
  by (simp add: fast_defs)

section \<open>The caption of a translation job\<close>

text \<open>
  Claim C6, as amended. A job whose backend call returns hands the publisher one new
  transcription with one segment: its id is \<open>SG_\<close> followed by the tail that this
  job's own call of \<open>shortuuid\<close> draws, its text is the backend's response text with
  the white space at both ends stripped, its language is the name of the translator's enum
  member, its track is the track the job was given, and it is final; whatever
  \<open>publish_transcription\<close> then does, the job hands over nothing more. Along a run
  from the start of a session, the ids of all published segments are pairwise distinct
  whenever the drawn tails are; every translator is registered under the name of its enum
  member, which is a language code; and every task in flight belongs to a registered
  translator.
\<close>

theorem translated_caption_fields:
  "published (snd (translate self message track (Returned resp) uid s)) =
     published s @ [\<lparr>participant_identity = local_identity s, track_sid = sid track,
       segments = [\<lparr>seg_id = shortuuid (str_of ''SG_'') uid, seg_text = strip resp,
         start_time = 0, end_time = 0, language = enum_name (lang self), final = True\<rparr>]\<rparr>] \<and>
   published (snd (translate_resume self message translated pub s')) = published s' \<and>
   (distinct (concat (map draws evs)) \<longrightarrow> distinct (published_ids (run evs (start ident)))) \<and>
   list_all (\<lambda>kt. enum_name (lang (snd kt)) = fst kt) (translators (run evs (start ident))) \<and>
   task_translator ` set (tasks (run evs (start ident))) \<subseteq> snd ` set (translators (run evs (start ident)))"
proof -
  have "\<forall>(k, t) \<in> set (translators (run evs (start ident))). k \<in> fst ` set languages \<and> k \<noteq> str_of ''en'' \<and> enum_name (lang t) = k"
    using pool_run [of "start ident" evs] by (simp add: start_def)
  then have "list_all (\<lambda>kt. enum_name (lang (snd kt)) = fst kt) (translators (run evs (start ident)))"
    by (auto simp: list_all_iff)
  moreover have "distinct (concat (map draws evs)) \<longrightarrow> distinct (published_ids (run evs (start ident)))"
    using ids_run [of "start ident" evs] by (simp add: start_def)
  moreover have "task_translator ` set (tasks (run evs (start ident))) \<subseteq> snd ` set (translators (run evs (start ident)))"
    using tasks_pool_run [of "start ident" evs] by (simp add: start_def)
  ultimately show ?thesis by (simp add: published_translate)
qed

theorem translated_caption_fields_witness:
  "distinct (concat (map draws
     [AttributesChanged (wants (str_of ''es'')) alice,
      Speech (heard (str_of ''one'')) alice mic (str_of ''a1''), PublishReturns 0 ok,
      TranslationReturns 0 (Returned (str_of ''uno'')) (str_of ''b1''), PublishReturns 0 ok])) \<and>
   published_ids (run
     [AttributesChanged (wants (str_of ''es'')) alice,
      Speech (heard (str_of ''one'')) alice mic (str_of ''a1''), PublishReturns 0 ok,
      TranslationReturns 0 (Returned (str_of ''uno'')) (str_of ''b1''), PublishReturns 0 ok] (start agent)) =
     [shortuuid (str_of ''SG_'') (str_of ''a1''), shortuuid (str_of ''SG_'') (str_of ''b1'')] \<and>
   published (snd (translate spanish (str_of ''one'') mic (Returned (str_of ''uno'')) (str_of ''b1'') (start agent))) =
     [\<lparr>participant_identity = agent, track_sid = str_of ''TR_mic'',
       segments = [\<lparr>seg_id = shortuuid (str_of ''SG_'') (str_of ''b1''), seg_text = str_of ''uno'',
         start_time = 0, end_time = 0, language = str_of ''es'', final = True\<rparr>]\<rparr>]"
proof -
  have a: "distinct (concat (map draws
     [AttributesChanged (wants (str_of ''es'')) alice,
      Speech (heard (str_of ''one'')) alice mic (str_of ''a1''), PublishReturns 0 ok,
      TranslationReturns 0 (Returned (str_of ''uno'')) (str_of ''b1''), PublishReturns 0 ok]))"
    by (simp add: fast_defs)
  have b: "published_ids (run
     [AttributesChanged (wants (str_of ''es'')) alice,
      Speech (heard (str_of ''one'')) alice mic (str_of ''a1''), PublishReturns 0 ok,
      TranslationReturns 0 (Returned (str_of ''uno'')) (str_of ''b1''), PublishReturns 0 ok] (start agent)) =
     [shortuuid (str_of ''SG_'') (str_of ''a1''), shortuuid (str_of ''SG_'') (str_of ''b1'')]"
    by (simp add: fast_defs)
  have c: "published (snd (translate spanish (str_of ''one'') mic (Returned (str_of ''uno'')) (str_of ''b1'') (start agent))) =
     [\<lparr>participant_identity = agent, track_sid = str_of ''TR_mic'',
       segments = [\<lparr>seg_id = shortuuid (str_of ''SG_'') (str_of ''b1''), seg_text = str_of ''uno'',
         start_time = 0, end_time = 0, language = str_of ''es'', final = True\<rparr>]\<rparr>]"
    by (simp add: fast_defs)
  show ?thesis
    using translated_caption_fields [where self = spanish and message = "str_of ''one''" and track = mic
        and resp = "str_of ''uno''" and uid = "str_of ''b1''" and s = "start agent"
        and translated = "str_of ''uno''" and pub = ok and s' = "start agent"
        and evs = "[AttributesChanged (wants (str_of ''es'')) alice,
      Speech (heard (str_of ''one'')) alice mic (str_of ''a1''), PublishReturns 0 ok,
      TranslationReturns 0 (Returned (str_of ''uno'')) (str_of ''b1''), PublishReturns 0 ok]" and ident = agent]
      a b c
    by blast
qed

text \<open>
  Claim C6 as stated fails on the text: the backend returns \<open>hola\<close> between two
  blanks, and the caption's text is \<open>hola\<close> without them.
\<close>

theorem response_is_stripped:
  "map seg_text (concat (map segments (published (snd (translate spanish (str_of ''hello'') mic
      (Returned (str_of '' hola '')) (str_of ''b1'') (start agent)))))) = [str_of ''hola''] \<and>
   str_of ''hola'' \<noteq> str_of '' hola ''"
  by (simp add: fast_defs)

section \<open>A failing backend call\<close>

text \<open>
  Claim C7. When the backend call of a translation job fails, \<open>translate\<close> ends with
  the exception; the task's handle was discarded, so asyncio's default exception handler
  logs the exception, and the record stays in the log whatever follows. The failure is
  scoped to that job: its task is gone and nothing else has changed, and from then on,
  whatever events follow, the registry, the published captions, the tasks in flight and
  the waiting coroutines are exactly what they would be if that job had not been in flight
  at all. So the other languages, the original captions and the later segments of the
  same language are handled as without the failure.
\<close>

theorem translation_failure_logged_and_scoped:
  assumes "k < length (tasks s)"
  shows "step (TranslationReturns k (Raised x) uid) s =
           s\<lparr>tasks := take k (tasks s) @ drop (Suc k) (tasks s),
              logged := logged s @ [LogTaskException (BackendError x)]\<rparr> \<and>
         LogTaskException (BackendError x) \<in>
           set (logged (run evs (step (TranslationReturns k (Raised x) uid) s))) \<and>
         (run evs (step (TranslationReturns k (Raised x) uid) s))\<lparr>logged := []\<rparr> =
           (run evs (s\<lparr>tasks := take k (tasks s) @ drop (Suc k) (tasks s)\<rparr>))\<lparr>logged := []\<rparr>"
proof -
  let ?s = "s\<lparr>tasks := take k (tasks s) @ drop (Suc k) (tasks s)\<rparr>"
  let ?f = "step (TranslationReturns k (Raised x) uid) s"
  have failed: "?f = ?s\<lparr>logged := logged s @ [LogTaskException (BackendError x)]\<rparr>"
    using assms by (simp add: step_def Let_def translate_def get_translation_def task_done_def)
  obtain l where "logged (run evs ?f) = logged ?f @ l"
    using logged_run [of evs ?f] by blast
  then have kept: "LogTaskException (BackendError x) \<in> set (logged (run evs ?f))"
    by (simp add: failed)
  have "(run evs ?f)\<lparr>logged := []\<rparr> = (run evs ?s)\<lparr>logged := []\<rparr>"
    unfolding failed by (rule run_log_irrelevant)
  then show ?thesis using failed kept by simp
qed

theorem translation_failure_logged_and_scoped_witness:
  "0 < length (tasks (run [AttributesChanged (wants (str_of ''es'')) alice, AttributesChanged (wants (str_of ''fr'')) alice,
          Speech (heard (str_of ''one'')) alice mic (str_of ''a1''), PublishReturns 0 ok] (start agent))) \<and>
   map task_lang (tasks (run [AttributesChanged (wants (str_of ''es'')) alice, AttributesChanged (wants (str_of ''fr'')) alice,
          Speech (heard (str_of ''one'')) alice mic (str_of ''a1''), PublishReturns 0 ok] (start agent))) = [str_of ''es'', str_of ''fr''] \<and>
   map task_lang (tasks (step (TranslationReturns 0 (Raised (str_of ''503'')) (str_of ''b1'')) (run [AttributesChanged (wants (str_of ''es'')) alice, AttributesChanged (wants (str_of ''fr'')) alice,
          Speech (heard (str_of ''one'')) alice mic (str_of ''a1''), PublishReturns 0 ok] (start agent)))) = [str_of ''fr''] \<and>
   last (logged (step (TranslationReturns 0 (Raised (str_of ''503'')) (str_of ''b1'')) (run [AttributesChanged (wants (str_of ''es'')) alice, AttributesChanged (wants (str_of ''fr'')) alice,
          Speech (heard (str_of ''one'')) alice mic (str_of ''a1''), PublishReturns 0 ok] (start agent)))) = LogTaskException (BackendError (str_of ''503'')) \<and>
   map seg_text (concat (map segments (published (run [TranslationReturns 0 (Returned (str_of ''un'')) (str_of ''b2'')]
       (step (TranslationReturns 0 (Raised (str_of ''503'')) (str_of ''b1'')) (run [AttributesChanged (wants (str_of ''es'')) alice, AttributesChanged (wants (str_of ''fr'')) alice,
          Speech (heard (str_of ''one'')) alice mic (str_of ''a1''), PublishReturns 0 ok] (start agent))))))) = [str_of ''one'', str_of ''un'']"
proof -
  have a: "0 < length (tasks (run [AttributesChanged (wants (str_of ''es'')) alice, AttributesChanged (wants (str_of ''fr'')) alice,
          Speech (heard (str_of ''one'')) alice mic (str_of ''a1''), PublishReturns 0 ok] (start agent)))"
    by (simp add: fast_defs)
  have b: "map task_lang (tasks (run [AttributesChanged (wants (str_of ''es'')) alice, AttributesChanged (wants (str_of ''fr'')) alice,
          Speech (heard (str_of ''one'')) alice mic (str_of ''a1''), PublishReturns 0 ok] (start agent))) = [str_of ''es'', str_of ''fr'']"
    by (simp add: fast_defs)
  have c: "map task_lang (tasks (step (TranslationReturns 0 (Raised (str_of ''503'')) (str_of ''b1'')) (run [AttributesChanged (wants (str_of ''es'')) alice, AttributesChanged (wants (str_of ''fr'')) alice,
          Speech (heard (str_of ''one'')) alice mic (str_of ''a1''), PublishReturns 0 ok] (start agent)))) = [str_of ''fr'']"
    by (simp add: fast_defs)
  have d: "last (logged (step (TranslationReturns 0 (Raised (str_of ''503'')) (str_of ''b1'')) (run [AttributesChanged (wants (str_of ''es'')) alice, AttributesChanged (wants (str_of ''fr'')) alice,
          Speech (heard (str_of ''one'')) alice mic (str_of ''a1''), PublishReturns 0 ok] (start agent)))) = LogTaskException (BackendError (str_of ''503''))"
    by (simp add: fast_defs)
  have e: "map seg_text (concat (map segments (published (run [TranslationReturns 0 (Returned (str_of ''un'')) (str_of ''b2'')]
       (step (TranslationReturns 0 (Raised (str_of ''503'')) (str_of ''b1'')) (run [AttributesChanged (wants (str_of ''es'')) alice, AttributesChanged (wants (str_of ''fr'')) alice,
          Speech (heard (str_of ''one'')) alice mic (str_of ''a1''), PublishReturns 0 ok] (start agent))))))) = [str_of ''one'', str_of ''un'']"
    by (simp add: fast_defs)
  show ?thesis
    using translation_failure_logged_and_scoped [where k = 0 and s = "(run [AttributesChanged (wants (str_of ''es'')) alice, AttributesChanged (wants (str_of ''fr'')) alice,
          Speech (heard (str_of ''one'')) alice mic (str_of ''a1''), PublishReturns 0 ok] (start agent))"
        and x = "str_of ''503''" and uid = "str_of ''b1''"
        and evs = "[TranslationReturns 0 (Returned (str_of ''un'')) (str_of ''b2'')]"]
      a b c d e
    by blast
qed

section \<open>The language query\<close>

text \<open>
  Claim C8. In every state, \<open>get/languages\<close> returns the same text: a JSON array with
  one object \<open>{code, name, flag}\<close> per catalog entry, in the catalog's order, the flags
  escaped as surrogate pairs. The call appends one line to the log and changes nothing
  else.
\<close>

theorem get_languages_catalog:
  \<open>fst (get_languages s) =
     str_of ''[{"code": "en", "name": "English", "flag": "'' @
       [92] @ str_of ''ud83c'' @ [92] @ str_of ''uddfa'' @ [92] @ str_of ''ud83c'' @ [92] @ str_of ''uddf8'' @
     str_of ''"}, {"code": "es", "name": "Spanish", "flag": "'' @
       [92] @ str_of ''ud83c'' @ [92] @ str_of ''uddea'' @ [92] @ str_of ''ud83c'' @ [92] @ str_of ''uddf8'' @
     str_of ''"}, {"code": "fr", "name": "French", "flag": "'' @
       [92] @ str_of ''ud83c'' @ [92] @ str_of ''uddeb'' @ [92] @ str_of ''ud83c'' @ [92] @ str_of ''uddf7'' @
     str_of ''"}, {"code": "de", "name": "German", "flag": "'' @
       [92] @ str_of ''ud83c'' @ [92] @ str_of ''udde9'' @ [92] @ str_of ''ud83c'' @ [92] @ str_of ''uddea'' @
     str_of ''"}, {"code": "ja", "name": "Japanese", "flag": "'' @
       [92] @ str_of ''ud83c'' @ [92] @ str_of ''uddef'' @ [92] @ str_of ''ud83c'' @ [92] @ str_of ''uddf5'' @
     str_of ''"}]'' \<and>
   snd (get_languages s) = s\<lparr>logged := logged s @ [LogInfo (str_of ''[RPC] get/languages called'')]\<rparr>\<close>
  by (simp add: get_languages_def json_dumps_def dumps_dict_def asdict_def languages_def
      encode_basestring_ascii_def escape_char_def hex4_def hex_digit_def str_of_def Let_def)

section \<open>Language tag and timing of published segments\<close>

text \<open>
  Claim C9. The original caption published for a final event carries the language
  \<open>en\<close>, whatever language, text and timing the recognizer's first alternative
  reports; the resumption after \<open>publish_transcription\<close> publishes nothing, whatever
  that call does.
\<close>

theorem original_caption_tagged_en:
  "map language (concat (map segments (published (snd (forward_transcription
      \<lparr>ev_type = FINAL_TRANSCRIPT,
       alternatives = \<lparr>sd_language = l, sd_text = m, sd_start_time = b, sd_end_time = e\<rparr> # rest\<rparr>
      p tr uid s))))) =
   map language (concat (map segments (published s))) @ [str_of ''en''] \<and>
   published (snd (forward_transcription_resume m' tr' pub s')) = published s'"
  by (simp add: published_forward)

theorem original_caption_tagged_en_witness:
  "map language (concat (map segments (published (snd (forward_transcription (heard (str_of ''bonjour'')) alice mic
      (str_of ''a1'') (start agent)))))) = [str_of ''en'']"
  using original_caption_tagged_en [where l = "str_of ''fr''" and m = "str_of ''bonjour''" and b = "3 / 2"
      and e = "5 / 2" and rest = "[]" and p = alice and tr = mic and uid = "str_of ''a1''" and s = "start agent"
      and m' = "str_of ''bonjour''" and tr' = mic and pub = ok and s' = "start agent"]
  by (simp add: fast_defs)

text \<open>
  Claim C10. Along every run from the start of a session, every segment of every published
  transcription, original or translated, has \<open>start_time = 0\<close> and
  \<open>end_time = 0\<close>.
\<close>

theorem published_times_zero:
  "list_all (\<lambda>tr. list_all (\<lambda>seg. start_time seg = 0 \<and> end_time seg = 0) (segments tr))
     (published (run evs (start ident)))"
  using times_run [of "start ident" evs] by (simp add: start_def)

theorem published_times_zero_witness:
  "map start_time (concat (map segments (published
     (run [AttributesChanged (wants (str_of ''es'')) alice,
           Speech (heard (str_of ''one'')) alice mic (str_of ''a1''), PublishReturns 0 ok,
           TranslationReturns 0 (Returned (str_of ''uno'')) (str_of ''b1''), PublishReturns 0 ok] (start agent))))) = [0, 0] \<and>
   map end_time (concat (map segments (published
     (run [AttributesChanged (wants (str_of ''es'')) alice,
           Speech (heard (str_of ''one'')) alice mic (str_of ''a1''), PublishReturns 0 ok,
           TranslationReturns 0 (Returned (str_of ''uno'')) (str_of ''b1''), PublishReturns 0 ok] (start agent))))) = [0, 0]"
  using published_times_zero [of "[AttributesChanged (wants (str_of ''es'')) alice,
           Speech (heard (str_of ''one'')) alice mic (str_of ''a1''), PublishReturns 0 ok,
           TranslationReturns 0 (Returned (str_of ''uno'')) (str_of ''b1''), PublishReturns 0 ok]" agent]
  by (simp add: fast_defs)

end
